theory Spec2Isabelle
  imports Main "HOL-Library.Word"
begin

unbundle bit_operations_syntax

section \<open>ADM1166 EEPROM updater: the Intel-HEX parser\<close>

text \<open>
  The development follows \<^verbatim>\<open>adm1166_eeprom.c\<close>. The C types are kept:
  \<^verbatim>\<open>unsigned char\<close> is \<open>8 word\<close>, \<^verbatim>\<open>unsigned short\<close> is \<open>16 word\<close>,
  \<^verbatim>\<open>unsigned int\<close> is \<open>32 word\<close>, and \<^verbatim>\<open>int\<close> values (return codes, the
  result of \<^verbatim>\<open>get_token\<close>) are \<open>int\<close>; none of the latter leaves the range of a C int.
  The linked list of \<^verbatim>\<open>struct ihex_chunk\<close> (fields \<^verbatim>\<open>first\<close>, \<^verbatim>\<open>last\<close>, \<^verbatim>\<open>next\<close>)
  is a HOL list in link order; appending through \<^verbatim>\<open>file->last\<close> is \<open>xs @ [c]\<close>.
  An access through a null pointer, or outside an allocation, is a \<open>fault\<close>.
\<close>

type_synonym byte = "8 word"

record ihex_chunk =
  addr :: "16 word"
  len :: "8 word"
  checksum :: "8 word"
  data :: "byte list"

type_synonym ihex_file = "ihex_chunk list"

datatype state =
    STATE_START_OF_LINE
  | STATE_LINE_LENGTH
  | STATE_ADDRESS
  | STATE_TYPE
  | STATE_DATA
  | STATE_CHECKSUM
  | STATE_END_OF_FILE
  | STATE_ERROR
  | STATE_DONE

datatype fault = NullDeref | OutOfBounds

text \<open>
  \<^verbatim>\<open>get_token\<close>: one byte of the stream, or \<open>-1\<close> when \<^verbatim>\<open>read\<close> delivers nothing.
  The descriptor's unread bytes are the string; the result carries what is left.
\<close>

definition get_token :: "string \<Rightarrow> int \<times> string" where
  "get_token inp = (case inp of [] \<Rightarrow> (- 1, []) | ch # rest \<Rightarrow> (int (of_char ch), rest))"

text \<open>
  \<^verbatim>\<open>get_hex_token\<close>: the \<^verbatim>\<open>for\<close> loop over \<open>len\<close> characters, with \<^verbatim>\<open>*val\<close>
  threaded through. The result is (return code, \<^verbatim>\<open>*val\<close>, rest of the stream).
\<close>

fun get_hex_loop :: "nat \<Rightarrow> string \<Rightarrow> 32 word \<Rightarrow> int \<times> 32 word \<times> string" where
  "get_hex_loop 0 inp val = (0, val, inp)"
| "get_hex_loop (Suc n) inp val =
     (case get_token inp of (c, rest) \<Rightarrow>
        if c < 0 then (c, val, rest)
        else if c \<ge> 48 \<and> c \<le> 57 then
          get_hex_loop n rest (push_bit 4 val OR word_of_int (c - 48))
        else if c \<ge> 65 \<and> c \<le> 70 then
          get_hex_loop n rest (push_bit 4 val OR word_of_int (c - 65 + 10))
        else (- 1, push_bit 4 val, rest))"

definition get_hex_token :: "nat \<Rightarrow> string \<Rightarrow> int \<times> 32 word \<times> string" where
  "get_hex_token n inp = get_hex_loop n inp 0"

text \<open>
  The local variables of \<^verbatim>\<open>parse_ihex\<close> that live across iterations of its
  \<^verbatim>\<open>while\<close> loop: the state, the chunk under construction (\<open>None\<close> is \<^verbatim>\<open>NULL\<close>),
  the list reachable from \<^verbatim>\<open>file->first\<close>, and the unread stream.
\<close>

record pconf =
  pstate :: state
  pchunk :: "ihex_chunk option"
  pfile :: ihex_file
  pinput :: string

text \<open>
  The \<^verbatim>\<open>for\<close> loop of \<^verbatim>\<open>STATE_DATA\<close>: \<open>k\<close> iterations are left, \<open>i\<close> is the index
  written next. The chunk was allocated with \<^verbatim>\<open>len\<close> data bytes.
\<close>

fun data_loop :: "nat \<Rightarrow> nat \<Rightarrow> ihex_chunk \<Rightarrow> string \<Rightarrow> fault + (state \<times> ihex_chunk \<times> string)" where
  "data_loop 0 i ch inp = Inr (STATE_CHECKSUM, ch, inp)"
| "data_loop (Suc k) i ch inp =
     (case get_hex_token 2 inp of (ret, tmp, rest) \<Rightarrow>
        if ret < 0 then Inr (STATE_ERROR, ch, rest)
        else if i < length (data ch) then
          data_loop k (Suc i) (ch\<lparr>data := (data ch)[i := ucast tmp]\<rparr>) rest
        else Inl OutOfBounds)"

text \<open>One iteration of the \<^verbatim>\<open>while\<close> loop: the \<^verbatim>\<open>switch\<close> on the state.\<close>

definition parse_step :: "pconf \<Rightarrow> fault + pconf" where
  "parse_step c =
     (case pstate c of
        STATE_START_OF_LINE \<Rightarrow>
          (case get_token (pinput c) of (t, rest) \<Rightarrow>
             if t = 10 \<or> t = 13 \<or> t = 9 \<or> t = 32 then Inr (c\<lparr>pinput := rest\<rparr>)
             else if t = 58 then Inr (c\<lparr>pstate := STATE_LINE_LENGTH, pinput := rest\<rparr>)
             else Inr (c\<lparr>pstate := STATE_ERROR, pinput := rest\<rparr>))
      | STATE_LINE_LENGTH \<Rightarrow>
          (case get_hex_token 2 (pinput c) of (ret, tmp, rest) \<Rightarrow>
             if ret < 0 then Inr (c\<lparr>pstate := STATE_ERROR, pinput := rest\<rparr>)
             else Inr (c\<lparr>pstate := STATE_ADDRESS,
                   pchunk := Some \<lparr>addr = 0, len = ucast tmp, checksum = 0,
                                     data = replicate (unat tmp) 0\<rparr>,
                   pinput := rest\<rparr>))
      | STATE_ADDRESS \<Rightarrow>
          (case get_hex_token 4 (pinput c) of (ret, tmp, rest) \<Rightarrow>
             if ret < 0 then Inr (c\<lparr>pstate := STATE_ERROR, pinput := rest\<rparr>)
             else (case pchunk c of
                     None \<Rightarrow> Inl NullDeref
                   | Some ch \<Rightarrow> Inr (c\<lparr>pstate := STATE_TYPE,
                         pchunk := Some (ch\<lparr>addr := ucast tmp\<rparr>), pinput := rest\<rparr>)))
      | STATE_TYPE \<Rightarrow>
          (case get_hex_token 2 (pinput c) of (ret, tmp, rest) \<Rightarrow>
             if ret < 0 then Inr (c\<lparr>pstate := STATE_ERROR, pinput := rest\<rparr>)
             else if tmp = 0 then Inr (c\<lparr>pstate := STATE_DATA, pinput := rest\<rparr>)
             else if tmp = 1 then Inr (c\<lparr>pstate := STATE_END_OF_FILE, pinput := rest\<rparr>)
             else Inr (c\<lparr>pinput := rest\<rparr>))
      | STATE_DATA \<Rightarrow>
          (case pchunk c of
             None \<Rightarrow> Inl NullDeref
           | Some ch \<Rightarrow>
               (case data_loop (unat (len ch)) 0 ch (pinput c) of
                  Inl f \<Rightarrow> Inl f
                | Inr (s, ch', rest) \<Rightarrow>
                    Inr (c\<lparr>pstate := s, pchunk := Some ch', pinput := rest\<rparr>)))
      | STATE_CHECKSUM \<Rightarrow>
          (case get_hex_token 2 (pinput c) of (ret, tmp, rest) \<Rightarrow>
             if ret < 0 then Inr (c\<lparr>pstate := STATE_ERROR, pinput := rest\<rparr>)
             else (case pchunk c of
                     None \<Rightarrow> Inl NullDeref
                   | Some ch \<Rightarrow> Inr (c\<lparr>pstate := STATE_START_OF_LINE,
                         pchunk := None,
                         pfile := pfile c @ [ch\<lparr>checksum := ucast tmp\<rparr>],
                         pinput := rest\<rparr>)))
      | STATE_END_OF_FILE \<Rightarrow>
          (case get_hex_token 1 (pinput c) of (ret, tmp, rest) \<Rightarrow>
             if ret < 0 \<or> tmp \<noteq> 0xff then Inr (c\<lparr>pstate := STATE_ERROR, pinput := rest\<rparr>)
             else Inr (c\<lparr>pstate := STATE_DONE, pinput := rest\<rparr>))
      | STATE_ERROR \<Rightarrow> Inr c
      | STATE_DONE \<Rightarrow> Inr c)"

definition running :: "pconf \<Rightarrow> bool" where
  "running c = (pstate c \<noteq> STATE_ERROR \<and> pstate c \<noteq> STATE_DONE)"

text \<open>
  The measure of the \<^verbatim>\<open>while\<close> loop: every iteration reads at least one
  character, or fails at the end of the stream, except \<^verbatim>\<open>STATE_DATA\<close> of an
  empty record, which only moves on to \<^verbatim>\<open>STATE_CHECKSUM\<close>.
\<close>

definition pmeasure :: "pconf \<Rightarrow> nat" where
  "pmeasure c = (if running c then 2 * length (pinput c) + (if pstate c = STATE_DATA then 2 else 1) else 0)"

subsection \<open>Termination of the parser loop\<close>

lemma get_hex_loop_length:
  "get_hex_loop n inp v = (r, v', rest) \<Longrightarrow> 0 \<le> r \<Longrightarrow> length rest + n = length inp"
proof (induction n arbitrary: inp v)
  case 0
  then show ?case by simp
next
  case (Suc n)
  then show ?case
    by (cases inp) (auto simp: get_token_def split: if_splits)
qed

lemma get_hex_token_length:
  "get_hex_token n inp = (r, v', rest) \<Longrightarrow> 0 \<le> r \<Longrightarrow> length rest + n = length inp"
  unfolding get_hex_token_def by (rule get_hex_loop_length)

lemma get_hex_loop_rest_le:
  "get_hex_loop n inp v = (r, v', rest) \<Longrightarrow> length rest \<le> length inp"
proof (induction n arbitrary: inp v)
  case 0
  then show ?case by simp
next
  case (Suc n)
  then show ?case
    by (cases inp) (fastforce simp: get_token_def split: if_splits)+
qed

lemma data_loop_length:
  "data_loop k i ch inp = Inr (s, ch', rest) \<Longrightarrow> length rest \<le> length inp"
proof (induction k arbitrary: i ch inp)
  case 0
  then show ?case by simp
next
  case (Suc k)
  obtain r t q where g: "get_hex_token 2 inp = (r, t, q)" by (cases "get_hex_token 2 inp")
  have q: "length q \<le> length inp"
    using g get_hex_loop_rest_le unfolding get_hex_token_def by blast
  show ?case
  proof (cases "r < 0")
    case True
    with Suc.prems g q show ?thesis by simp
  next
    case False
    with Suc.prems g have "data_loop k (Suc i) (ch\<lparr>data := (data ch)[i := ucast t]\<rparr>) q = Inr (s, ch', rest)"
      by (simp split: if_splits)
    from Suc.IH[OF this] q show ?thesis by simp
  qed
qed

lemma data_loop_state:
  "data_loop k i ch inp = Inr (s, ch', rest) \<Longrightarrow> s = STATE_CHECKSUM \<or> s = STATE_ERROR"
  by (induction k arbitrary: i ch inp) (auto split: prod.splits if_splits)

lemma parse_step_decreases:
  assumes "running c" and "parse_step c = Inr c'"
  shows "pmeasure c' < pmeasure c"
proof (cases "pstate c")
  case STATE_START_OF_LINE
  with assms show ?thesis
    by (cases "pinput c") (auto simp: parse_step_def pmeasure_def running_def get_token_def split: if_splits)
next
  case STATE_LINE_LENGTH
  with assms show ?thesis
    by (auto simp: parse_step_def pmeasure_def running_def split: prod.splits if_splits dest!: get_hex_token_length)
next
  case STATE_ADDRESS
  with assms show ?thesis
    by (auto simp: parse_step_def pmeasure_def running_def split: prod.splits if_splits option.splits dest!: get_hex_token_length)
next
  case STATE_TYPE
  with assms show ?thesis
    by (auto simp: parse_step_def pmeasure_def running_def split: prod.splits if_splits dest!: get_hex_token_length)
next
  case STATE_DATA
  with assms show ?thesis
    by (auto simp: parse_step_def pmeasure_def running_def split: prod.splits if_splits option.splits sum.splits
        dest: data_loop_length data_loop_state)
next
  case STATE_CHECKSUM
  with assms show ?thesis
    by (auto simp: parse_step_def pmeasure_def running_def split: prod.splits if_splits option.splits dest!: get_hex_token_length)
next
  case STATE_END_OF_FILE
  with assms show ?thesis
    by (auto simp: parse_step_def pmeasure_def running_def split: prod.splits if_splits dest!: get_hex_token_length)
next
  case STATE_ERROR
  with assms show ?thesis by (simp add: running_def)
next
  case STATE_DONE
  with assms show ?thesis by (simp add: running_def)
qed

text \<open>The \<^verbatim>\<open>while\<close> loop of \<^verbatim>\<open>parse_ihex\<close>.\<close>

function parse_loop :: "pconf \<Rightarrow> fault + pconf" where
  "parse_loop c =
     (if running c then (case parse_step c of Inl f \<Rightarrow> Inl f | Inr c' \<Rightarrow> parse_loop c') else Inr c)"
  by pat_completeness auto
termination
  by (relation "measure pmeasure") (auto intro: parse_step_decreases)

declare parse_loop.simps [simp del]

text \<open>
  After the loop: the chunk under construction is freed, and the return code tells
  whether the loop ended in \<^verbatim>\<open>STATE_DONE\<close>. The list was written through the caller's
  pointer \<^verbatim>\<open>file\<close> as the lines were committed, so the caller's struct holds it
  whatever the return code is.
\<close>

definition parse_result :: "pconf \<Rightarrow> int \<times> ihex_file" where
  "parse_result c = (if pstate c \<noteq> STATE_DONE then - 1 else 0, pfile c)"

definition parse_ihex :: "string \<Rightarrow> fault + (int \<times> ihex_file)" where
  "parse_ihex inp =
     (case parse_loop \<lparr>pstate = STATE_START_OF_LINE, pchunk = None, pfile = [], pinput = inp\<rparr> of
        Inl f \<Rightarrow> Inl f
      | Inr c \<Rightarrow> Inr (parse_result c))"

section \<open>The environment: descriptors and the I2C device\<close>

text \<open>
  What an open descriptor refers to: a standard stream, the Intel-HEX file (opened
  read-only) or \<^verbatim>\<open>/dev/i2c-0\<close>.
\<close>

datatype target = Stdio | HexFile | I2CDev

text \<open>
  What reaches the device node, in order: \<^verbatim>\<open>write\<close> with its bytes, the
  \<^verbatim>\<open>I2C_RDWR\<close> transfer with the bytes of its write message and the length of its
  read message, the \<^verbatim>\<open>I2C_SLAVE\<close> request with its address. \<^verbatim>\<open>sleep\<close> is recorded
  in the same sequence.
\<close>

datatype event =
    DevWrite "byte list"
  | DevRdwr "byte list" nat
  | DevSlave nat
  | Sleep nat

text \<open>
  The device is any deterministic machine with a state \<open>'d\<close>. A \<^verbatim>\<open>write\<close> answers
  with its return value and the value \<^verbatim>\<open>errno\<close> has afterwards; \<^verbatim>\<open>I2C_RDWR\<close> answers
  with those two and the bytes it stored in the read buffer. \<open>uninit\<close> is what the
  uninitialised array \<^verbatim>\<open>rbuf\<close> of \<^verbatim>\<open>program_chunk\<close> happens to hold.
\<close>

record 'd env =
  dev_write :: "'d \<Rightarrow> byte list \<Rightarrow> (int \<times> int) \<times> 'd"
  dev_rdwr :: "'d \<Rightarrow> byte list \<Rightarrow> nat \<Rightarrow> (int \<times> int \<times> byte list) \<times> 'd"
  dev_slave :: "'d \<Rightarrow> nat \<Rightarrow> int \<times> 'd"
  i2c_present :: bool
  uninit :: "'d \<Rightarrow> byte list"

record 'd world =
  fds :: "(nat \<times> target) list"
  dstate :: 'd
  trace :: "event list"

text \<open>
  \<^verbatim>\<open>open\<close>, when it succeeds, returns the lowest descriptor number that is not open
  (POSIX, File Descriptor Allocation); \<^verbatim>\<open>close\<close> frees the number. Among the numbers
  \<open>0, ..., length used\<close> one is always free (\<open>lowest_free_fresh\<close>), so the search finds it.
  Whether an \<^verbatim>\<open>open\<close> succeeds is the caller's case distinction: \<open>os_open\<close> is the
  successful call.
\<close>

definition lowest_free :: "nat list \<Rightarrow> nat" where
  "lowest_free used =
     (case find (\<lambda>n. n \<notin> set used) [0..<Suc (length used)] of
        Some n \<Rightarrow> n
      | None \<Rightarrow> Suc (length used))"

definition os_open :: "'d world \<Rightarrow> target \<Rightarrow> nat \<times> 'd world" where
  "os_open w t = (let k = lowest_free (map fst (fds w)) in (k, w\<lparr>fds := (k, t) # fds w\<rparr>))"

definition os_close :: "'d world \<Rightarrow> nat \<Rightarrow> 'd world" where
  "os_close w k = w\<lparr>fds := filter (\<lambda>e. fst e \<noteq> k) (fds w)\<rparr>"

text \<open>
  Only a descriptor of \<^verbatim>\<open>/dev/i2c-0\<close> reaches the device. A \<^verbatim>\<open>write\<close> on a number
  that is not open, or that is the read-only file, fails with \<^verbatim>\<open>EBADF\<close> (9); the
  \<^verbatim>\<open>ioctl\<close> requests fail on anything else than the device (\<^verbatim>\<open>ENOTTY\<close>, 25).
\<close>

definition os_write :: "'d env \<Rightarrow> 'd world \<Rightarrow> nat \<Rightarrow> byte list \<Rightarrow> (int \<times> int) \<times> 'd world" where
  "os_write D w k bytes =
     (case map_of (fds w) k of
        Some I2CDev \<Rightarrow>
          (case dev_write D (dstate w) bytes of
             (r, d') \<Rightarrow> (r, w\<lparr>dstate := d', trace := trace w @ [DevWrite bytes]\<rparr>))
      | Some Stdio \<Rightarrow> ((int (length bytes), 0), w)
      | Some HexFile \<Rightarrow> ((- 1, 9), w)
      | None \<Rightarrow> ((- 1, 9), w))"

definition os_rdwr :: "'d env \<Rightarrow> 'd world \<Rightarrow> nat \<Rightarrow> byte list \<Rightarrow> nat \<Rightarrow> (int \<times> int \<times> byte list) \<times> 'd world" where
  "os_rdwr D w k bytes n =
     (case map_of (fds w) k of
        Some I2CDev \<Rightarrow>
          (case dev_rdwr D (dstate w) bytes n of
             (r, d') \<Rightarrow> (r, w\<lparr>dstate := d', trace := trace w @ [DevRdwr bytes n]\<rparr>))
      | Some Stdio \<Rightarrow> ((- 1, 25, []), w)
      | Some HexFile \<Rightarrow> ((- 1, 25, []), w)
      | None \<Rightarrow> ((- 1, 9, []), w))"

definition os_slave :: "'d env \<Rightarrow> 'd world \<Rightarrow> nat \<Rightarrow> nat \<Rightarrow> int \<times> 'd world" where
  "os_slave D w k a =
     (case map_of (fds w) k of
        Some I2CDev \<Rightarrow>
          (case dev_slave D (dstate w) a of
             (r, d') \<Rightarrow> (r, w\<lparr>dstate := d', trace := trace w @ [DevSlave a]\<rparr>))
      | Some Stdio \<Rightarrow> (- 1, w)
      | Some HexFile \<Rightarrow> (- 1, w)
      | None \<Rightarrow> (- 1, w))"

definition do_sleep :: "'d world \<Rightarrow> nat \<Rightarrow> 'd world" where
  "do_sleep w n = w\<lparr>trace := trace w @ [Sleep n]\<rparr>"

section \<open>The page protocol\<close>

text \<open>The two address bytes every operation starts with.\<close>

definition addr_bytes :: "32 word \<Rightarrow> byte list" where
  "addr_bytes a = [ucast (drop_bit 8 a AND 0xff), ucast (a AND 0xff)]"

definition adm_eeprom_erase :: "'d env \<Rightarrow> 'd world \<Rightarrow> nat \<Rightarrow> 32 word \<Rightarrow> int \<times> 'd world" where
  "adm_eeprom_erase D w fd a =
     (case os_write D w fd (addr_bytes a) of
        ((ret, errno), w1) \<Rightarrow>
          if ret \<noteq> 2 then (- errno, w1)
          else (case os_write D w1 fd [0xfe] of
                  ((ret2, errno2), w2) \<Rightarrow> if ret2 \<noteq> 1 then (- errno2, w2) else (0, w2)))"

text \<open>
  \<^verbatim>\<open>adm_eeprom_read\<close>: \<open>rbuf\<close> is the caller's array, returned unchanged on failure.
  The local \<^verbatim>\<open>buf\<close> has 33 bytes; the transfer overwrites as many of them as the
  device delivers, so \<open>buf'\<close> has 33 bytes and its index 0 exists.
\<close>

definition adm_eeprom_read :: "'d env \<Rightarrow> 'd world \<Rightarrow> nat \<Rightarrow> 32 word \<Rightarrow> byte list \<Rightarrow> int \<times> byte list \<times> 'd world" where
  "adm_eeprom_read D w fd a rbuf =
     (case os_write D w fd (addr_bytes a) of
        ((ret, errno), w1) \<Rightarrow>
          if ret \<noteq> 2 then (- errno, rbuf, w1)
          else (case os_rdwr D w1 fd [0xfd] 33 of
                  ((ret2, errno2, rd), w2) \<Rightarrow>
                    let buf = 0xfd # ucast (a AND 0xff) # replicate 31 0;
                        buf' = take 33 (rd @ drop (length rd) buf)
                    in if ret2 \<noteq> 2 then (- errno2, rbuf, w2)
                       else if buf' ! 0 \<noteq> 0x20 then (- 1, rbuf, w2)
                       else (0, take 32 (drop 1 buf'), w2)))"

definition adm_eeprom_write :: "'d env \<Rightarrow> 'd world \<Rightarrow> nat \<Rightarrow> 32 word \<Rightarrow> byte list \<Rightarrow> int \<times> 'd world" where
  "adm_eeprom_write D w fd a wbuf =
     (case os_write D w fd (addr_bytes a) of
        ((ret, errno), w1) \<Rightarrow>
          if ret \<noteq> 2 then (- errno, w1)
          else (case os_write D w1 fd (0xfc # 0x20 # take 32 wbuf) of
                  ((ret2, errno2), w2) \<Rightarrow> if ret2 < 0 then (- errno2, w2) else (0, w2)))"

text \<open>
  \<^verbatim>\<open>program_chunk\<close>. \<open>nxt\<close> is \<^verbatim>\<open>chunk->next\<close>. The two \<^verbatim>\<open>memcpy\<close> calls read 16 bytes
  of each chunk's data, which has as many bytes as the chunk was allocated with.
\<close>

definition program_chunk :: "'d env \<Rightarrow> 'd world \<Rightarrow> nat \<Rightarrow> ihex_chunk \<Rightarrow> ihex_chunk option \<Rightarrow> fault + (int \<times> 'd world)" where
  "program_chunk D w fd c nxt =
     (case adm_eeprom_read D w fd (ucast (addr c)) (uninit D (dstate w)) of
        (ret, rbuf, w1) \<Rightarrow>
          if ret \<noteq> 0 then Inr (- 1, w1)
          else if length (data c) < 0x10 then Inl OutOfBounds
          else (case nxt of
                  None \<Rightarrow> Inl NullDeref
                | Some n \<Rightarrow>
                    if length (data n) < 0x10 then Inl OutOfBounds
                    else let wbuf = take 0x10 (data c) @ take 0x10 (data n) in
                      if wbuf = rbuf then Inr (0, w1)
                      else (case adm_eeprom_erase D w1 fd (ucast (addr c)) of
                        (ret2, w2) \<Rightarrow>
                          if ret2 \<noteq> 0 then Inr (- 1, w2)
                          else (case adm_eeprom_write D (do_sleep w2 1) fd (ucast (addr c)) wbuf of
                            (ret3, w3) \<Rightarrow>
                              if ret3 \<noteq> 0 then Inr (- 1, w3)
                              else (case adm_eeprom_read D (do_sleep w3 1) fd (ucast (addr c)) rbuf of
                                (ret4, rbuf', w4) \<Rightarrow>
                                  if (if ret4 = 0 \<and> rbuf' \<noteq> wbuf then - 1 else ret4) = 0
                                  then Inr (0, w4) else Inr (- 1, w4))))))"

section \<open>The orchestrator: \<^verbatim>\<open>main\<close>\<close>

text \<open>The first loop of \<^verbatim>\<open>main\<close>; \<open>False\<close> is \<^verbatim>\<open>exit(1)\<close> with "Invalid file".\<close>

fun validate_from :: "32 word \<Rightarrow> ihex_file \<Rightarrow> bool" where
  "validate_from a [] = True"
| "validate_from a (c # rest) =
     (if len c \<noteq> 0x10 \<or> ucast (addr c) \<noteq> a then False
      else if unat (addr c) mod 0x20 = 0 \<and> rest = [] then False
      else validate_from (a + 0x10) rest)"

definition validate_file :: "ihex_file \<Rightarrow> bool" where
  "validate_file file = validate_from 0xf800 file"

definition reserved_page :: "16 word \<Rightarrow> bool" where
  "reserved_page a =
     ((a \<ge> 0xF8A0 \<and> a < 0xF900) \<or> (a \<ge> 0xF9A0 \<and> a < 0xFA00) \<or>
      (a \<ge> 0xFAA0 \<and> a < 0xFB00) \<or> (a \<ge> 0xFBA0 \<and> a < 0xFC00))"

text \<open>
  The \<^verbatim>\<open>do ... while (ret != 0 && retry < 3)\<close> loop; \<open>retry\<close> is the counter before
  the iteration. The result carries the counter after the loop.
\<close>

function program_retry :: "'d env \<Rightarrow> nat \<Rightarrow> ihex_chunk \<Rightarrow> ihex_chunk option \<Rightarrow> nat \<Rightarrow> 'd world
    \<Rightarrow> fault + (int \<times> nat \<times> 'd world)" where
  "program_retry D fd c nxt retry w =
     (case program_chunk D w fd c nxt of
        Inl f \<Rightarrow> Inl f
      | Inr (ret, w') \<Rightarrow>
          if ret \<noteq> 0 \<and> Suc retry < 3 then program_retry D fd c nxt (Suc retry) w'
          else Inr (ret, Suc retry, w'))"
  by pat_completeness auto
termination
  by (relation "measure (\<lambda>(D, fd, c, nxt, retry, w). 3 - retry)") auto

text \<open>
  The second loop of \<^verbatim>\<open>main\<close>, from the chunk at the head of the list. \<open>ret\<close> is the
  value the variable has on entry. Stepping by \<^verbatim>\<open>chunk->next->next\<close> reads through
  \<^verbatim>\<open>chunk->next\<close>, which is a fault when the chunk is the last one.
\<close>

fun program_pages :: "'d env \<Rightarrow> nat \<Rightarrow> int \<Rightarrow> 'd world \<Rightarrow> ihex_file \<Rightarrow> fault + (int \<times> 'd world)" where
  "program_pages D fd ret w [] = Inr (ret, w)"
| "program_pages D fd ret w [c] =
     (if reserved_page (addr c) then Inl NullDeref
      else (case program_retry D fd c None 0 w of
              Inl f \<Rightarrow> Inl f
            | Inr (r, k, w') \<Rightarrow> if r \<noteq> 0 then Inr (r, w') else Inl NullDeref))"
| "program_pages D fd ret w (c # n # rest) =
     (if reserved_page (addr c) then program_pages D fd ret w rest
      else (case program_retry D fd c (Some n) 0 w of
              Inl f \<Rightarrow> Inl f
            | Inr (r, k, w') \<Rightarrow> if r \<noteq> 0 then Inr (r, w') else program_pages D fd r w' rest))"

datatype banner = Reprogrammed | ReprogramFailed

record 'd result =
  exit_code :: int
  banner :: "banner option"
  final :: "'d world"

text \<open>
  \<^verbatim>\<open>main\<close> from the test of \<^verbatim>\<open>parse_ihex\<close>'s return code to its end. \<open>fd\<close> is the
  value of the variable \<^verbatim>\<open>fd\<close>, \<open>pr\<close> what \<^verbatim>\<open>parse_ihex\<close> returned and left in
  \<^verbatim>\<open>ihex_file\<close>, \<open>w\<close> the world after \<^verbatim>\<open>close(fd)\<close>.
  The diagnostics (\<^verbatim>\<open>printf\<close>, \<^verbatim>\<open>fprintf(stderr, ...)\<close>, \<^verbatim>\<open>perror\<close>) of \<^verbatim>\<open>main\<close> and of
  the functions it calls are not events of the model, except for the final banner. They
  are writes on descriptors 1 and 2, so the trace is the device's view of the run only in
  a world where 1 and 2 are open on something else than the device; a statement about
  the whole trace carries that as a hypothesis.
\<close>

definition main_from_parse :: "'d env \<Rightarrow> nat \<Rightarrow> int \<times> ihex_file \<Rightarrow> 'd world \<Rightarrow> fault + 'd result" where
  "main_from_parse D fd pr w =
     (case pr of (ret, file) \<Rightarrow>
        if ret \<noteq> 0 then Inr \<lparr>exit_code = 1, banner = None, final = w\<rparr>
        else if \<not> validate_file file then Inr \<lparr>exit_code = 1, banner = None, final = w\<rparr>
        else if \<not> i2c_present D then Inr \<lparr>exit_code = 1, banner = None, final = w\<rparr>
        else (case os_open w I2CDev of
          (i2c_fd, w1) \<Rightarrow>
            (case os_slave D w1 i2c_fd 0x34 of
               (ret1, w2) \<Rightarrow>
                 if ret1 < 0 then Inr \<lparr>exit_code = 1, banner = None, final = w2\<rparr>
                 else let w3 = snd (os_write D w2 i2c_fd [0x93, 0x1]);
                          w4 = snd (os_write D w3 i2c_fd [0x90, 0x5])
                      in (case program_pages D i2c_fd ret1 w4 file of
                            Inl f \<Rightarrow> Inl f
                          | Inr (ret2, w5) \<Rightarrow>
                              let w6 = snd (os_write D w5 fd [0x90, 0x0])
                              in Inr \<lparr>exit_code = 0,
                                      banner = Some (if ret2 = 0 then Reprogrammed else ReprogramFailed),
                                      final = w6\<rparr>))))"

text \<open>
  \<^verbatim>\<open>main\<close>. \<open>hex\<close> is the content of the file \<^verbatim>\<open>argv[1]\<close> names, \<open>None\<close> when it
  cannot be opened.
\<close>

definition main :: "'d env \<Rightarrow> string option \<Rightarrow> 'd world \<Rightarrow> fault + 'd result" where
  "main D hex w0 =
     (case hex of
        None \<Rightarrow> Inr \<lparr>exit_code = 1, banner = None, final = w0\<rparr>
      | Some content \<Rightarrow>
          (case os_open w0 HexFile of
             (fd, w1) \<Rightarrow>
               (case parse_ihex content of
                  Inl f \<Rightarrow> Inl f
                | Inr pr \<Rightarrow> main_from_parse D fd pr (os_close w1 fd))))"

section \<open>A device for concrete runs\<close>

text \<open>
  It accepts every write and the slave address, and answers the page reads from a
  script: each read delivers the length byte \<open>0x20\<close> and the next page of the script;
  once the script is used up, reads fail with \<^verbatim>\<open>EIO\<close> (5).
\<close>

definition scripted :: "byte list list env" where
  "scripted =
     \<lparr>dev_write = (\<lambda>d bs. ((int (length bs), 0), d)),
      dev_rdwr = (\<lambda>d bs n. case d of [] \<Rightarrow> ((- 1, 5, []), []) | r # rs \<Rightarrow> ((2, 0, 0x20 # r), rs)),
      dev_slave = (\<lambda>d a. (0, d)),
      i2c_present = True,
      uninit = (\<lambda>d. replicate 32 0)\<rparr>"

text \<open>A process with the three standard streams open, facing a device with the given script.\<close>

definition boot :: "byte list list \<Rightarrow> byte list list world" where
  "boot script = \<lparr>fds = [(0, Stdio), (1, Stdio), (2, Stdio)], dstate = script, trace = []\<rparr>"

definition lo_chunk :: ihex_chunk where
  "lo_chunk = \<lparr>addr = 0xF800, len = 0x10, checksum = 0x80,
                data = [0, 1, 2, 3, 4, 5, 6, 7, 8, 9, 10, 11, 12, 13, 14, 15]\<rparr>"

definition hi_chunk :: ihex_chunk where
  "hi_chunk = \<lparr>addr = 0xF810, len = 0x10, checksum = 0x70,
                data = [16, 17, 18, 19, 20, 21, 22, 23, 24, 25, 26, 27, 28, 29, 30, 31]\<rparr>"

definition page_bytes :: "byte list" where
  "page_bytes = data lo_chunk @ data hi_chunk"

definition blank :: "byte list" where
  "blank = [0xFF, 0xFF, 0xFF, 0xFF, 0xFF, 0xFF, 0xFF, 0xFF, 0xFF, 0xFF, 0xFF, 0xFF, 0xFF, 0xFF, 0xFF, 0xFF,
              0xFF, 0xFF, 0xFF, 0xFF, 0xFF, 0xFF, 0xFF, 0xFF, 0xFF, 0xFF, 0xFF, 0xFF, 0xFF, 0xFF, 0xFF, 0xFF]"



text \<open>The same process once \<^verbatim>\<open>/dev/i2c-0\<close> is open on descriptor 3.\<close>

definition attached :: "byte list list \<Rightarrow> byte list list world" where
  "attached script = \<lparr>fds = [(3, I2CDev), (0, Stdio), (1, Stdio), (2, Stdio)], dstate = script, trace = []\<rparr>"

text \<open>
  Two configurations of the parser in the middle of a second line \<^verbatim>\<open>:02F8100012G\<close>:
  before and after the iteration that meets the character \<^verbatim>\<open>G\<close>.
\<close>

definition half_line :: pconf where
  "half_line =
     \<lparr>pstate = STATE_DATA,
      pchunk = Some \<lparr>addr = 0xF810, len = 2, checksum = 0, data = [0, 0]\<rparr>,
      pfile = [lo_chunk], pinput = ''12G''\<rparr>"

definition half_line_error :: pconf where
  "half_line_error =
     \<lparr>pstate = STATE_ERROR,
      pchunk = Some \<lparr>addr = 0xF810, len = 2, checksum = 0, data = [0x12, 0]\<rparr>,
      pfile = [lo_chunk], pinput = ''''\<rparr>"

text \<open>
  Events by kind. The erase trigger is the one-byte write \<open>0xFE\<close>; a page write is the
  34-byte write that starts with \<open>0xFC 0x20\<close>. The two address bytes that precede every
  operation are neither.
\<close>

definition is_erase :: "event \<Rightarrow> bool" where
  "is_erase e = (e = DevWrite [0xfe])"

definition is_page_write :: "event \<Rightarrow> bool" where
  "is_page_write e = (case e of DevWrite bs \<Rightarrow> length bs = 34 \<and> take 2 bs = [0xfc, 0x20] | _ \<Rightarrow> False)"

lemmas run_defs = main_from_parse_def validate_file_def os_open_def os_close_def os_write_def
  os_rdwr_def os_slave_def do_sleep_def adm_eeprom_erase_def adm_eeprom_read_def adm_eeprom_write_def
  program_chunk_def addr_bytes_def reserved_page_def scripted_def boot_def lo_chunk_def hi_chunk_def
  lowest_free_def Let_def program_retry.simps

lemmas dev_defs = os_write_def os_rdwr_def do_sleep_def adm_eeprom_erase_def adm_eeprom_read_def
  adm_eeprom_write_def program_chunk_def addr_bytes_def scripted_def attached_def lo_chunk_def
  hi_chunk_def page_bytes_def blank_def Let_def

section \<open>Properties of the parser\<close>

subsection \<open>Bounds on a hex token\<close>

lemma digit_small:
  assumes "0 \<le> d" "d < 16"
  shows "take_bit 4 (word_of_int d :: 32 word) = word_of_int d"
proof -
  have "take_bit 4 d = d" using assms by (simp add: take_bit_int_eq_self)
  then show ?thesis by (simp add: take_bit_of_int)
qed

lemma hex_small_step:
  assumes "take_bit m v = v" "take_bit 4 (w :: 32 word) = w"
  shows "take_bit (m + 4) (push_bit 4 v OR w) = push_bit 4 v OR w"
proof -
  have "take_bit (m + 4) (take_bit 4 w) = take_bit 4 w" by (simp add: min_def)
  then have w: "take_bit (m + 4) w = w" using assms(2) by simp
  have "take_bit (m + 4) (push_bit 4 v) = push_bit 4 (take_bit m v)"
    by (simp add: take_bit_push_bit)
  with assms(1) w show ?thesis by simp
qed

lemma get_hex_loop_small:
  "get_hex_loop n inp v = (r, v', rest) \<Longrightarrow> 0 \<le> r \<Longrightarrow> take_bit m v = v
     \<Longrightarrow> take_bit (m + 4 * n) v' = v'"
proof (induction n arbitrary: inp v m)
  case 0
  then show ?case by simp
next
  case (Suc n)
  obtain c q where g: "get_token inp = (c, q)" by (cases "get_token inp")
  from Suc.prems(1,2) g have c0: "\<not> c < 0" by (auto split: if_splits)
  show ?case
  proof (cases "48 \<le> c \<and> c \<le> 57")
    case True
    with Suc.prems(1) g c0
    have rec: "get_hex_loop n q (push_bit 4 v OR word_of_int (c - 48)) = (r, v', rest)" by simp
    have "take_bit 4 (word_of_int (c - 48) :: 32 word) = word_of_int (c - 48)"
      using True by (intro digit_small) auto
    then have "take_bit (m + 4) (push_bit 4 v OR word_of_int (c - 48)) = push_bit 4 v OR word_of_int (c - 48)"
      using Suc.prems(3) by (rule hex_small_step[rotated])
    from Suc.IH[OF rec Suc.prems(2) this] show ?thesis by (simp add: add.assoc add.commute)
  next
    case False
    note nd = this
    show ?thesis
    proof (cases "65 \<le> c \<and> c \<le> 70")
      case True
      with Suc.prems(1) g c0 nd
      have rec: "get_hex_loop n q (push_bit 4 v OR word_of_int (c - 65 + 10)) = (r, v', rest)" by simp
      have "take_bit 4 (word_of_int (c - 65 + 10) :: 32 word) = word_of_int (c - 65 + 10)"
        using True by (intro digit_small) auto
      then have "take_bit (m + 4) (push_bit 4 v OR word_of_int (c - 65 + 10)) = push_bit 4 v OR word_of_int (c - 65 + 10)"
        using Suc.prems(3) by (rule hex_small_step[rotated])
      from Suc.IH[OF rec Suc.prems(2) this] show ?thesis by (simp add: add.assoc add.commute)
    next
      case False
      with Suc.prems(1,2) g c0 nd show ?thesis by simp
    qed
  qed
qed

lemma get_hex_token_small:
  "get_hex_token n inp = (r, v, rest) \<Longrightarrow> 0 \<le> r \<Longrightarrow> take_bit (4 * n) v = v"
  unfolding get_hex_token_def using get_hex_loop_small[of n inp 0 r v rest 0] by simp

lemma get_hex_token_1_not_ff:
  assumes "get_hex_token 1 inp = (r, v, rest)" "0 \<le> r"
  shows "v \<noteq> 0xff"
proof
  assume "v = 0xff"
  moreover have "take_bit 4 v = v" using get_hex_token_small[OF assms] by simp
  ultimately have "take_bit 4 (0xff :: 32 word) = 0xff" by simp
  then show False by simp
qed

lemma get_hex_token_2_byte:
  assumes "get_hex_token 2 inp = (r, v, rest)" "0 \<le> r"
  shows "unat (ucast v :: 8 word) = unat v"
proof -
  have "take_bit 8 v = v" using get_hex_token_small[OF assms] by simp
  then have "unat v = unat (take_bit 8 v)" by simp
  then show ?thesis by (simp add: unsigned_ucast_eq unsigned_take_bit_eq)
qed


subsection \<open>The end-of-file state\<close>

lemma eof_state_always_error:
  assumes "pstate c = STATE_END_OF_FILE"
  shows "parse_step c = Inr (c\<lparr>pstate := STATE_ERROR, pinput := snd (snd (get_hex_token 1 (pinput c)))\<rparr>)"
proof -
  obtain r v q where g: "get_hex_token 1 (pinput c) = (r, v, q)"
    by (cases "get_hex_token 1 (pinput c)")
  have "r < 0 \<or> v \<noteq> 0xff" using get_hex_token_1_not_ff[OF g] by fastforce
  with assms g show ?thesis by (auto simp: parse_step_def)
qed

lemma parse_step_not_done:
  assumes "pstate c \<noteq> STATE_DONE" "parse_step c = Inr c'"
  shows "pstate c' \<noteq> STATE_DONE"
proof (cases "pstate c = STATE_END_OF_FILE")
  case True
  with assms(2) show ?thesis by (auto simp: eof_state_always_error)
next
  case False
  with assms show ?thesis
    by (cases "pstate c")
       (auto simp: parse_step_def split: prod.splits if_splits option.splits sum.splits
             dest: data_loop_state)
qed

lemma parse_loop_stops: "parse_loop c = Inr c' \<Longrightarrow> \<not> running c'"
proof (induction c rule: parse_loop.induct)
  case (1 c)
  then show ?case
    by (subst (asm) (2) parse_loop.simps) (auto split: if_splits sum.splits)
qed

lemma parse_loop_not_done:
  "parse_loop c = Inr c' \<Longrightarrow> pstate c \<noteq> STATE_DONE \<Longrightarrow> pstate c' = STATE_ERROR"
proof (induction c rule: parse_loop.induct)
  case (1 c)
  show ?case
  proof (cases "running c")
    case True
    with "1.prems"(1) obtain d where d: "parse_step c = Inr d" "parse_loop d = Inr c'"
      by (subst (asm) parse_loop.simps) (auto split: sum.splits)
    from parse_step_not_done[OF "1.prems"(2) d(1)] "1.IH"[OF True d(1) d(2)]
    show ?thesis by simp
  next
    case False
    with "1.prems" show ?thesis
      by (subst (asm) parse_loop.simps) (auto simp: running_def)
  qed
qed

subsection \<open>The parser dereferences no null pointer\<close>

definition chunk_complete :: "ihex_chunk \<Rightarrow> bool" where
  "chunk_complete ch = (length (data ch) = unat (len ch))"

definition needs_chunk :: "state \<Rightarrow> bool" where
  "needs_chunk s = (s = STATE_ADDRESS \<or> s = STATE_TYPE \<or> s = STATE_DATA \<or> s = STATE_CHECKSUM)"

definition pinv :: "pconf \<Rightarrow> bool" where
  "pinv c = ((if needs_chunk (pstate c) then (case pchunk c of None \<Rightarrow> False | Some ch \<Rightarrow> chunk_complete ch) else True)
              \<and> list_all chunk_complete (pfile c))"

lemma data_loop_ok:
  "i + k \<le> length (data ch) \<Longrightarrow>
   \<exists>s ch' rest. data_loop k i ch inp = Inr (s, ch', rest)
       \<and> length (data ch') = length (data ch) \<and> len ch' = len ch"
proof (induction k arbitrary: i ch inp)
  case 0
  then show ?case by simp
next
  case (Suc k)
  obtain r t q where g: "get_hex_token 2 inp = (r, t, q)" by (cases "get_hex_token 2 inp")
  show ?case
  proof (cases "r < 0")
    case True
    with g show ?thesis by simp
  next
    case False
    let ?ch = "ch\<lparr>data := (data ch)[i := ucast t]\<rparr>"
    from Suc.prems have "Suc i + k \<le> length (data ?ch)" by simp
    from Suc.IH[OF this, of q] obtain s ch' rest where
      "data_loop k (Suc i) ?ch q = Inr (s, ch', rest)"
      "length (data ch') = length (data ?ch)" "len ch' = len ?ch" by blast
    with False g Suc.prems show ?thesis by simp
  qed
qed

lemma parse_step_pinv:
  assumes "pinv c"
  shows "case parse_step c of Inl f \<Rightarrow> False | Inr c' \<Rightarrow> pinv c'"
proof (cases "pstate c")
  case STATE_START_OF_LINE
  with assms show ?thesis
    by (auto simp: parse_step_def pinv_def needs_chunk_def split: prod.splits)
next
  case STATE_LINE_LENGTH
  with assms show ?thesis
    by (auto simp: parse_step_def pinv_def needs_chunk_def chunk_complete_def
          split: prod.splits dest: get_hex_token_2_byte)
next
  case STATE_ADDRESS
  with assms show ?thesis
    by (auto simp: parse_step_def pinv_def needs_chunk_def chunk_complete_def
          split: prod.splits option.splits)
next
  case STATE_TYPE
  with assms show ?thesis
    by (auto simp: parse_step_def pinv_def needs_chunk_def split: prod.splits)
next
  case STATE_DATA
  with assms obtain ch where ch: "pchunk c = Some ch" "chunk_complete ch"
    by (auto simp: pinv_def needs_chunk_def split: option.splits)
  then have "0 + unat (len ch) \<le> length (data ch)" by (simp add: chunk_complete_def)
  from data_loop_ok[OF this, of "pinput c"] obtain s ch' rest where
    d: "data_loop (unat (len ch)) 0 ch (pinput c) = Inr (s, ch', rest)"
       "length (data ch') = length (data ch)" "len ch' = len ch" by blast
  with assms STATE_DATA ch show ?thesis
    by (auto simp: parse_step_def pinv_def needs_chunk_def chunk_complete_def)
next
  case STATE_CHECKSUM
  with assms show ?thesis
    by (auto simp: parse_step_def pinv_def needs_chunk_def chunk_complete_def
          split: prod.splits option.splits)
next
  case STATE_END_OF_FILE
  with assms show ?thesis
    by (auto simp: eof_state_always_error pinv_def needs_chunk_def)
next
  case STATE_ERROR
  with assms show ?thesis by (simp add: parse_step_def)
next
  case STATE_DONE
  with assms show ?thesis by (simp add: parse_step_def)
qed

lemma parse_loop_pinv: "pinv c \<Longrightarrow> \<exists>c'. parse_loop c = Inr c' \<and> pinv c'"
proof (induction c rule: parse_loop.induct)
  case (1 c)
  show ?case
  proof (cases "running c")
    case True
    from parse_step_pinv[OF "1.prems"] obtain d where d: "parse_step c = Inr d" "pinv d"
      by (auto split: sum.splits)
    from "1.IH"[OF True d] obtain c' where "parse_loop d = Inr c'" "pinv c'" by blast
    with True d show ?thesis by (subst parse_loop.simps) simp
  next
    case False
    with "1.prems" show ?thesis by (subst parse_loop.simps) simp
  qed
qed

lemma parse_ihex_always_fails:
  "\<exists>f. parse_ihex inp = Inr (- 1, f) \<and> list_all chunk_complete f"
proof -
  let ?c = "\<lparr>pstate = STATE_START_OF_LINE, pchunk = None, pfile = [], pinput = inp\<rparr>"
  have "pinv ?c" by (simp add: pinv_def needs_chunk_def)
  from parse_loop_pinv[OF this] obtain c' where c': "parse_loop ?c = Inr c'" "pinv c'" by blast
  from parse_loop_not_done[OF c'(1)] have "pstate c' = STATE_ERROR" by simp
  with c' show ?thesis by (simp add: parse_ihex_def parse_result_def pinv_def)
qed

lemma parse_step_commit:
  assumes "parse_step c = Inr c'" "pfile c' \<noteq> pfile c"
  shows "pstate c = STATE_CHECKSUM \<and> pstate c' = STATE_START_OF_LINE \<and> pchunk c' = None \<and>
         (\<exists>ch cks. pchunk c = Some ch \<and> pfile c' = pfile c @ [ch\<lparr>checksum := cks\<rparr>])"
  using assms
  by (cases "pstate c")
     (auto simp: parse_step_def split: prod.splits if_splits option.splits sum.splits)

lemma parse_loop_error: "pstate c = STATE_ERROR \<Longrightarrow> parse_loop c = Inr c"
  by (subst parse_loop.simps) (simp add: running_def)

lemma parse_loop_step: "running c \<Longrightarrow> parse_step c = Inr c' \<Longrightarrow> parse_loop c = parse_loop c'"
  by (subst parse_loop.simps) simp

section \<open>Properties of the orchestrator\<close>

subsection \<open>Addresses\<close>

lemma unat_ucast_16_32: "unat (ucast (x :: 16 word) :: 32 word) = unat x"
proof -
  have "unat x < 2 ^ 16" using unsigned_less[of x] by simp
  then have "unat x < 2 ^ 32" by simp
  then show ?thesis by (simp add: unsigned_ucast_eq take_bit_nat_eq_self)
qed

lemma ucast_16_32_eq_iff: "ucast (x :: 16 word) = (a :: 32 word) \<longleftrightarrow> unat x = unat a"
  by (metis unat_ucast_16_32 word_unat_eq_iff)

lemma unat_16_bound: "unat (x :: 16 word) < 65536"
  using unsigned_less[of x] by simp

lemma unat_plus_16:
  assumes "unat (a :: 32 word) < 65536"
  shows "unat (a + 0x10) = unat a + 16"
proof -
  have "unat (a + 0x10) = (unat a + 16) mod 2 ^ 32" by (simp add: unat_word_ariths)
  with assms show ?thesis by simp
qed

lemma validate_from_iff:
  "validate_from a cs \<longleftrightarrow>
     (\<forall>i < length cs. len (cs ! i) = 0x10 \<and> unat (addr (cs ! i)) = unat a + 16 * i) \<and>
     (cs \<noteq> [] \<longrightarrow> unat (addr (last cs)) mod 32 \<noteq> 0)"
proof (induction cs arbitrary: a)
  case Nil
  then show ?case by simp
next
  case (Cons c rest)
  show ?case
  proof (cases "len c = 0x10 \<and> unat (addr c) = unat a")
    case False
    then have "\<not> validate_from a (c # rest)" by (auto simp: ucast_16_32_eq_iff)
    moreover from False have "\<not> (\<forall>i < length (c # rest). len ((c # rest) ! i) = 0x10 \<and> unat (addr ((c # rest) ! i)) = unat a + 16 * i)"
      by (auto intro: exI[of _ 0])
    ultimately show ?thesis by blast
  next
    case True
    then have small: "unat a < 65536" using unat_16_bound[of "addr c"] by simp
    have step: "unat (a + 0x10) = unat a + 16" by (rule unat_plus_16[OF small])
    have all_iff: "(\<forall>i < length (c # rest). len ((c # rest) ! i) = 0x10 \<and> unat (addr ((c # rest) ! i)) = unat a + 16 * i)
        \<longleftrightarrow> (\<forall>i < length rest. len (rest ! i) = 0x10 \<and> unat (addr (rest ! i)) = unat (a + 0x10) + 16 * i)"
      using True step by (auto simp: nth_Cons split: nat.splits)
    show ?thesis
    proof (cases rest)
      case Nil
      with True show ?thesis by (auto simp: ucast_16_32_eq_iff)
    next
      case (Cons n rest')
      then have "validate_from a (c # rest) = validate_from (a + 0x10) rest"
        using True by (simp add: ucast_16_32_eq_iff)
      with Cons.IH[of "a + 0x10"] all_iff Cons show ?thesis by simp
    qed
  qed
qed

lemma validate_file_iff:
  "validate_file cs \<longleftrightarrow>
     (\<forall>i < length cs. len (cs ! i) = 0x10 \<and> unat (addr (cs ! i)) = 0xF800 + 16 * i) \<and>
     (cs \<noteq> [] \<longrightarrow> unat (addr (last cs)) mod 32 \<noteq> 0)"
  unfolding validate_file_def validate_from_iff by simp

declare program_retry.simps [simp del]

subsection \<open>Descriptor allocation\<close>



subsection \<open>Frame: the device operations leave the descriptor table alone\<close>



lemma os_slave_fds: "os_slave D w k a = (r, w') \<Longrightarrow> fds w' = fds w"
  by (auto simp: os_slave_def split: option.splits target.splits prod.splits)







subsection \<open>Where the page loop can fault\<close>

lemma program_chunk_fault:
  assumes "program_chunk D w fd c nxt = Inl f"
  shows "(f = NullDeref \<and> nxt = None) \<or>
         (f = OutOfBounds \<and> (length (data c) < 16 \<or> (\<exists>n. nxt = Some n \<and> length (data n) < 16)))"
  using assms
  by (auto simp: program_chunk_def Let_def split: prod.splits if_splits option.splits)

lemma program_retry_fault:
  "program_retry D fd c nxt k w = Inl f \<Longrightarrow>
     (f = NullDeref \<and> nxt = None) \<or>
     (f = OutOfBounds \<and> (length (data c) < 16 \<or> (\<exists>n. nxt = Some n \<and> length (data n) < 16)))"
proof (induction D fd c nxt k w rule: program_retry.induct)
  case (1 D fd c nxt retry w)
  show ?case
  proof (cases "program_chunk D w fd c nxt")
    case (Inl g)
    with "1.prems" have "g = f" by (subst (asm) program_retry.simps) simp
    with Inl show ?thesis using program_chunk_fault by blast
  next
    case (Inr p)
    obtain r1 w1 where p: "p = (r1, w1)" by (cases p)
    from "1.prems" Inr p have go: "r1 \<noteq> 0 \<and> Suc retry < 3"
      and rec: "program_retry D fd c nxt (Suc retry) w1 = Inl f"
      by (subst (asm) program_retry.simps, simp split: if_splits)+
    from "1.IH"[OF Inr[unfolded p] refl go rec] show ?thesis .
  qed
qed

lemma program_retry_count:
  "program_retry D fd c nxt k w = Inr (r, k', w') \<Longrightarrow> k < 3 \<Longrightarrow> k < k' \<and> k' \<le> 3"
proof (induction D fd c nxt k w rule: program_retry.induct)
  case (1 D fd c nxt retry w)
  from "1.prems"(1) obtain r1 w1 where pc: "program_chunk D w fd c nxt = Inr (r1, w1)"
    by (subst (asm) program_retry.simps) (auto split: sum.splits)
  show ?case
  proof (cases "r1 \<noteq> 0 \<and> Suc retry < 3")
    case True
    with "1.prems" pc have "program_retry D fd c nxt (Suc retry) w1 = Inr (r, k', w')"
      by (subst (asm) program_retry.simps) simp
    from "1.IH"[OF pc refl True this] True show ?thesis by simp
  next
    case False
    with "1.prems" pc have "k' = Suc retry" by (subst (asm) program_retry.simps) auto
    with "1.prems"(2) show ?thesis by simp
  qed
qed

lemma program_pages_null_free:
  "even (length cs) \<Longrightarrow> program_pages D fd ret w cs \<noteq> Inl NullDeref"
proof (induction D fd ret w cs rule: program_pages.induct)
  case (1 D fd ret w)
  then show ?case by simp
next
  case (2 D fd ret w c)
  then show ?case by simp
next
  case (3 D fd ret w c n rest)
  from "3.prems" have ev: "even (length rest)" by simp
  show ?case
  proof (cases "reserved_page (addr c)")
    case True
    with "3.IH"(1)[OF True ev] show ?thesis by simp
  next
    case False
    show ?thesis
    proof (cases "program_retry D fd c (Some n) 0 w")
      case (Inl f)
      with program_retry_fault[OF Inl] False show ?thesis by auto
    next
      case (Inr p)
      obtain r1 k1 w1 where p: "p = (r1, k1, w1)" by (cases p)
      show ?thesis
      proof (cases "r1 = 0")
        case True
        from "3.IH"(2)[OF False Inr[unfolded p] refl refl _ ev] True
        show ?thesis using False Inr p by simp
      next
        case False
        with \<open>\<not> reserved_page (addr c)\<close> Inr p show ?thesis by simp
      qed
    qed
  qed
qed


subsection \<open>What a validated list looks like\<close>

lemma validate_file_even:
  assumes "validate_file cs"
  shows "even (length cs)"
proof (cases "cs = []")
  case True
  then show ?thesis by simp
next
  case False
  then have l: "length cs - 1 < length cs" by simp
  from assms have a: "unat (addr (cs ! (length cs - 1))) = 0xF800 + 16 * (length cs - 1)"
    and b: "unat (addr (last cs)) mod 32 \<noteq> 0"
    using False l unfolding validate_file_iff by blast+
  from b False a have "(0xF800 + 16 * (length cs - 1)) mod 32 \<noteq> (0::nat)"
    by (simp add: last_conv_nth)
  then have "odd (length cs - 1)" by presburger
  with False show ?thesis by (cases "length cs") auto
qed


subsection \<open>Events\<close>



lemma os_write_trace:
  "os_write D w k bs = (r, w') \<Longrightarrow> trace w' = trace w \<or> trace w' = trace w @ [DevWrite bs]"
  by (auto simp: os_write_def split: option.splits target.splits prod.splits)

lemma os_rdwr_trace:
  "os_rdwr D w k bs n = (r, w') \<Longrightarrow> trace w' = trace w \<or> trace w' = trace w @ [DevRdwr bs n]"
  by (auto simp: os_rdwr_def split: option.splits target.splits prod.splits)

lemma adm_eeprom_read_trace:
  assumes "adm_eeprom_read D w fd a rb = (r, rb', w')"
  shows "filter is_erase (trace w') = filter is_erase (trace w)"
    and "filter is_page_write (trace w') = filter is_page_write (trace w)"
proof -
  obtain r1 e1 w1 where a: "os_write D w fd (addr_bytes a) = ((r1, e1), w1)"
    by (metis surj_pair)
  obtain q w2 where b: "os_rdwr D w1 fd [0xfd] 33 = (q, w2)" by (metis surj_pair)
  have 1: "filter is_erase (trace w1) = filter is_erase (trace w)"
          "filter is_page_write (trace w1) = filter is_page_write (trace w)"
    using os_write_trace[OF a] by (auto simp: is_erase_def is_page_write_def addr_bytes_def)
  have 2: "filter is_erase (trace w2) = filter is_erase (trace w1)"
          "filter is_page_write (trace w2) = filter is_page_write (trace w1)"
    using os_rdwr_trace[OF b] by (auto simp: is_erase_def is_page_write_def)
  have "w' = w1 \<or> w' = w2"
    using assms a b by (auto simp: adm_eeprom_read_def Let_def split: prod.splits if_splits)
  with 1 2 show "filter is_erase (trace w') = filter is_erase (trace w)"
    and "filter is_page_write (trace w') = filter is_page_write (trace w)" by auto
qed


subsection \<open>What the end-of-file state means for \<^verbatim>\<open>main\<close>\<close>


subsection \<open>The exit code and the verify step\<close>

lemma banner_exit_code:
  assumes "main_from_parse D fd pr w = Inr r"
  shows "exit_code r = (if banner r = None then 1 else 0)"
  using assms
  by (auto simp: main_from_parse_def Let_def split: prod.splits if_splits sum.splits)

lemma program_chunk_verify_mismatch:
  assumes "adm_eeprom_read D w fd (ucast (addr c)) (uninit D (dstate w)) = (0, rbuf, w1)"
      and "16 \<le> length (data c)" and "16 \<le> length (data n)"
      and "rbuf \<noteq> take 16 (data c) @ take 16 (data n)"
      and "adm_eeprom_erase D w1 fd (ucast (addr c)) = (0, w2)"
      and "adm_eeprom_write D (do_sleep w2 1) fd (ucast (addr c)) (take 16 (data c) @ take 16 (data n)) = (0, w3)"
      and "adm_eeprom_read D (do_sleep w3 1) fd (ucast (addr c)) rbuf = (0, rbuf', w4)"
      and "rbuf' \<noteq> take 16 (data c) @ take 16 (data n)"
  shows "program_chunk D w fd c (Some n) = Inr (- 1, w4)"
  using assms by (simp add: program_chunk_def)

section \<open>The claims\<close>

text \<open>
  \<^bold>\<open>C1\<close> (end-of-file state). The claim: in \<^verbatim>\<open>STATE_END_OF_FILE\<close> the parser reads one
  pair of hex characters, goes to \<^verbatim>\<open>STATE_DONE\<close> when the value is \<open>0xFF\<close> and rejects the
  stream otherwise. The code calls \<^verbatim>\<open>get_hex_token(fd, 1, &tmp)\<close>, which reads a single
  character, so \<^verbatim>\<open>tmp\<close> is at most \<open>0xF\<close> and the test \<^verbatim>\<open>tmp != 0xff\<close> always holds
  (\<open>eof_state_always_error\<close>, \<open>parse_ihex_always_fails\<close>). At the standard end-of-file
  record \<^verbatim>\<open>:00000001FF\<close> the state reads the first \<^verbatim>\<open>F\<close>, leaves the second unread, and
  the parse returns \<open>-1\<close>.
\<close>

theorem eof_record_rejected:
  "parse_step \<lparr>pstate = STATE_END_OF_FILE, pchunk = None, pfile = [], pinput = ''FF''\<rparr> =
     Inr \<lparr>pstate = STATE_ERROR, pchunk = None, pfile = [], pinput = ''F''\<rparr> \<and>
   parse_ihex '':00000001FF'' = Inr (- 1, [])"
  by code_simp

text \<open>
  \<^bold>\<open>C2\<close> (round trip). The claim: a well-formed stream of \<open>N\<close> data records and a valid
  end-of-file record parses successfully into exactly those \<open>N\<close> records. On the stream
  of the two records \<open>lo_chunk\<close> and \<open>hi_chunk\<close> followed by \<^verbatim>\<open>:00000001FF\<close> the list holds
  the two records, in order and with the encoded address, length and bytes, but the return
  code is \<open>-1\<close>: the end-of-file state rejects the marker (see C1).
\<close>

theorem well_formed_stream_fails:
  "parse_ihex
     '':10F80000000102030405060708090A0B0C0D0E0F80:10F81000101112131415161718191A1B1C1D1E1F70:00000001FF''
   = Inr (- 1, [lo_chunk, hi_chunk])"
  by code_simp






text \<open>
  The end of \<^verbatim>\<open>main\<close> is \<^verbatim>\<open>return 0\<close> after either banner. No run gets there, since the parse
  never returns 0; entered after the parse with a validated list and a device whose page
  reads all fail, the code prints the failure banner and returns 0.
\<close>

lemma return_zero_after_failure_banner:
  "(case main_from_parse scripted 3 (0, [lo_chunk, hi_chunk])
           (os_close ((boot [])\<lparr>fds := (3, HexFile) # fds (boot [])\<rparr>) 3) of
      Inl f \<Rightarrow> None | Inr r \<Rightarrow> Some (exit_code r, banner r)) = Some (0, Some ReprogramFailed)"
  by (simp add: run_defs)

text \<open>
  \<^bold>\<open>C5\<close> (structural validation). The first loop of \<^verbatim>\<open>main\<close> accepts a list exactly when
  every record has length 16, the address of the \<open>i\<close>-th record is \<open>0xF800 + 16 i\<close>, and the
  last record's address is not a multiple of 32; when it rejects, \<^verbatim>\<open>main\<close> exits with 1
  in the world it was entered in: no descriptor opened, no event.
\<close>

theorem structural_validation:
  "(validate_file cs \<longleftrightarrow>
      (\<forall>i < length cs. len (cs ! i) = 0x10 \<and> unat (addr (cs ! i)) = 0xF800 + 16 * i) \<and>
      (cs \<noteq> [] \<longrightarrow> unat (addr (last cs)) mod 32 \<noteq> 0)) \<and>
   (\<not> validate_file cs \<longrightarrow>
      main_from_parse D fd (0, cs) w = Inr \<lparr>exit_code = 1, banner = None, final = w\<rparr>)"
  using validate_file_iff[of cs] by (simp add: main_from_parse_def)

theorem structural_validation_witness:
  "validate_file [lo_chunk, hi_chunk] \<and> \<not> validate_file [lo_chunk] \<and>
   main_from_parse scripted 3 (0, [lo_chunk]) (boot []) =
     Inr \<lparr>exit_code = 1, banner = None, final = boot []\<rparr>"
proof -
  have a: "validate_file [lo_chunk, hi_chunk]"
    using structural_validation[of "[lo_chunk, hi_chunk]" scripted 3 "boot []"]
    by (simp add: lo_chunk_def hi_chunk_def less_Suc_eq)
  have b: "\<not> validate_file [lo_chunk]"
    using structural_validation[of "[lo_chunk]" scripted 3 "boot []"]
    by (simp add: lo_chunk_def)
  with structural_validation[of "[lo_chunk]" scripted 3 "boot []"] a show ?thesis by blast
qed

text \<open>
  \<^bold>\<open>C6\<close> (bounded retry). The counter of the \<^verbatim>\<open>do ... while\<close> loop, which counts the calls
  of \<^verbatim>\<open>program_chunk\<close> for the page, ends between 1 and 3. When the first two attempts
  fail (\<^verbatim>\<open>program_chunk\<close> returns nonzero, as it does on a read-back that differs:
  \<open>program_chunk_verify_mismatch\<close>) the
  third attempt decides: the loop returns its result with the counter at 3; on success the
  page loop goes on with the next page, on failure it stops at once with that result, in
  the world the third attempt left, whatever pages follow.
\<close>

theorem bounded_retry:
  "(program_retry D fd c nxt 0 w = Inr (r, k, w') \<longrightarrow> 1 \<le> k \<and> k \<le> 3) \<and>
   (program_chunk D w0 fd c (Some n) = Inr (r1, w1) \<and> r1 \<noteq> 0 \<and>
    program_chunk D w1 fd c (Some n) = Inr (r2, w2) \<and> r2 \<noteq> 0 \<and>
    program_chunk D w2 fd c (Some n) = Inr (r3, w3) \<and> \<not> reserved_page (addr c) \<longrightarrow>
      program_retry D fd c (Some n) 0 w0 = Inr (r3, 3, w3) \<and>
      (r3 = 0 \<longrightarrow> program_pages D fd ret w0 (c # n # rest) = program_pages D fd 0 w3 rest) \<and>
      (r3 \<noteq> 0 \<longrightarrow> program_pages D fd ret w0 (c # n # rest) = Inr (r3, w3)))"
proof -
  have a: "program_retry D fd c nxt 0 w = Inr (r, k, w') \<longrightarrow> 1 \<le> k \<and> k \<le> 3"
    using program_retry_count[of D fd c nxt 0 w r k w'] by auto
  have b: "program_retry D fd c (Some n) 0 w0 = Inr (r3, 3, w3)"
    if "program_chunk D w0 fd c (Some n) = Inr (r1, w1)" "r1 \<noteq> 0"
       "program_chunk D w1 fd c (Some n) = Inr (r2, w2)" "r2 \<noteq> 0"
       "program_chunk D w2 fd c (Some n) = Inr (r3, w3)"
  proof -
    have "program_retry D fd c (Some n) 2 w2 = Inr (r3, 3, w3)"
      using that(5) by (subst program_retry.simps) (simp add: numeral_3_eq_3 numeral_2_eq_2)
    then have "program_retry D fd c (Some n) 1 w1 = Inr (r3, 3, w3)"
      using that(3,4) by (subst program_retry.simps) (simp add: numeral_2_eq_2)
    then show ?thesis
      using that(1,2) by (subst program_retry.simps) simp
  qed
  show ?thesis using a b by auto
qed

theorem bounded_retry_witness:
  "\<exists>w3. program_retry scripted 3 lo_chunk (Some hi_chunk) 0
           (attached [blank, blank, blank, blank, blank, page_bytes]) = Inr (0, 3, w3) \<and>
         program_pages scripted 3 0 (attached [blank, blank, blank, blank, blank, page_bytes])
           [lo_chunk, hi_chunk] = Inr (0, w3)"
proof -
  obtain r1 w1 where a1: "program_chunk scripted (attached [blank, blank, blank, blank, blank, page_bytes]) 3
        lo_chunk (Some hi_chunk) = Inr (r1, w1)" and n1: "r1 \<noteq> 0"
     and d1: "dstate w1 = [blank, blank, blank, page_bytes]" and f1: "fds w1 = fds (attached [])"
    by (simp add: dev_defs)
  obtain r2 w2 where a2: "program_chunk scripted w1 3 lo_chunk (Some hi_chunk) = Inr (r2, w2)"
     and n2: "r2 \<noteq> 0" and d2: "dstate w2 = [blank, page_bytes]" and f2: "fds w2 = fds (attached [])"
    using d1 f1 by (simp add: dev_defs)
  obtain w3 where a3: "program_chunk scripted w2 3 lo_chunk (Some hi_chunk) = Inr (0, w3)"
    using d2 f2 by (simp add: dev_defs)
  have nr: "\<not> reserved_page (addr lo_chunk)" by (simp add: reserved_page_def lo_chunk_def)
  from bounded_retry[of scripted 3 lo_chunk "Some hi_chunk" "attached []" 0 0 "attached []"
      "attached [blank, blank, blank, blank, blank, page_bytes]" hi_chunk r1 w1 r2 w2 0 w3 0 "[]"]
    a1 n1 a2 n2 a3 nr
  show ?thesis by simp
qed

text \<open>
  \<^bold>\<open>C7\<close> (reserved pages). For a page whose address lies in \<open>0xF8A0-0xF8FF\<close>,
  \<open>0xF9A0-0xF9FF\<close>, \<open>0xFAA0-0xFAFF\<close> or \<open>0xFBA0-0xFBFF\<close>, the page loop goes on with the
  next page in the same world and with the same \<^verbatim>\<open>ret\<close>: no event, no attempt, whatever
  the data of the two records; a list that consists of this page alone returns \<^verbatim>\<open>ret\<close>
  unchanged.
\<close>

theorem reserved_page_skipped:
  assumes "(0xF8A0 \<le> unat (addr c) \<and> unat (addr c) \<le> 0xF8FF) \<or>
           (0xF9A0 \<le> unat (addr c) \<and> unat (addr c) \<le> 0xF9FF) \<or>
           (0xFAA0 \<le> unat (addr c) \<and> unat (addr c) \<le> 0xFAFF) \<or>
           (0xFBA0 \<le> unat (addr c) \<and> unat (addr c) \<le> 0xFBFF)"
  shows "program_pages D fd ret w (c # n # rest) = program_pages D fd ret w rest \<and>
         program_pages D fd ret w [c, n] = Inr (ret, w)"
proof -
  from assms have "reserved_page (addr c)"
    unfolding reserved_page_def word_le_nat_alt word_less_nat_alt by simp linarith
  then show ?thesis by simp
qed

theorem reserved_page_skipped_witness:
  "program_pages scripted 3 0 (attached [])
     [lo_chunk\<lparr>addr := 0xF8A0\<rparr>, hi_chunk\<lparr>addr := 0xF8B0\<rparr>] = Inr (0, attached [])"
  using reserved_page_skipped[of "lo_chunk\<lparr>addr := 0xF8A0\<rparr>" scripted 3 0 "attached []"
      "hi_chunk\<lparr>addr := 0xF8B0\<rparr>" "[]"]
  by simp

text \<open>
  \<^bold>\<open>C8\<close> (identical page). When the first \<^verbatim>\<open>adm_eeprom_read\<close> of \<^verbatim>\<open>program_chunk\<close>
  succeeds with the 32 bytes the two records hold, \<^verbatim>\<open>program_chunk\<close> returns 0 in the
  world that read left: the trace has gained no erase trigger and no page write.
\<close>

theorem identical_page_short_circuit:
  assumes "adm_eeprom_read D w fd (ucast (addr c)) (uninit D (dstate w)) = (0, rbuf, w1)"
      and "rbuf = take 16 (data c) @ take 16 (data n)"
      and "16 \<le> length (data c)" and "16 \<le> length (data n)"
  shows "program_chunk D w fd c (Some n) = Inr (0, w1) \<and>
         filter is_erase (trace w1) = filter is_erase (trace w) \<and>
         filter is_page_write (trace w1) = filter is_page_write (trace w)"
  using assms adm_eeprom_read_trace[OF assms(1)]
  by (simp add: program_chunk_def)

theorem identical_page_short_circuit_witness:
  "program_chunk scripted (attached [page_bytes]) 3 lo_chunk (Some hi_chunk) =
     Inr (0, (attached [])\<lparr>trace := [DevWrite [0xF8, 0x00], DevRdwr [0xfd] 33]\<rparr>)"
proof -
  have rd: "adm_eeprom_read scripted (attached [page_bytes]) 3 (ucast (addr lo_chunk))
              (uninit scripted (dstate (attached [page_bytes]))) =
            (0, page_bytes, (attached [])\<lparr>trace := [DevWrite [0xF8, 0x00], DevRdwr [0xfd] 33]\<rparr>)"
    by (simp add: dev_defs)
  have pb: "page_bytes = take 16 (data lo_chunk) @ take 16 (data hi_chunk)"
    by (simp add: page_bytes_def lo_chunk_def hi_chunk_def)
  have l: "16 \<le> length (data lo_chunk)" "16 \<le> length (data hi_chunk)"
    by (simp_all add: lo_chunk_def hi_chunk_def)
  from identical_page_short_circuit[OF rd pb l] show ?thesis by simp
qed

text \<open>
  \<^bold>\<open>C9\<close> (parse errors). The claim: on any parse error the parse fails and no partial
  record list is returned; the record in progress is never committed and the caller
  receives a failure rather than a usable list of the records parsed before the error.

  What holds: an iteration of the parser that ends in \<^verbatim>\<open>STATE_ERROR\<close> leaves the list as it
  was, the loop stops there and the return code is \<open>-1\<close>; so a parse whose loop ends in
  \<^verbatim>\<open>STATE_ERROR\<close> returns \<open>-1\<close>, together with the list as it was when the error was met. The
  list changes in one place only: the iteration that has read the checksum of a line
  appends the chunk of that line and goes on to \<^verbatim>\<open>STATE_START_OF_LINE\<close>; so the chunk of a
  line that fails is never appended (it is freed), and every chunk in the list holds all
  its \<^verbatim>\<open>len\<close> bytes. \<^verbatim>\<open>main\<close> exits with 1 without reading the list and without an event
  on the device.
\<close>

theorem parse_error_commits_nothing:
  "(parse_step c = Inr c' \<and> pstate c' = STATE_ERROR \<longrightarrow>
      pfile c' = pfile c \<and> (running c \<longrightarrow> parse_loop c = Inr c') \<and> parse_result c' = (- 1, pfile c)) \<and>
   (parse_step c = Inr c' \<and> pfile c' \<noteq> pfile c \<longrightarrow>
      pstate c = STATE_CHECKSUM \<and> pstate c' = STATE_START_OF_LINE \<and> pchunk c' = None \<and>
      (\<exists>ch cks. pchunk c = Some ch \<and> pfile c' = pfile c @ [ch\<lparr>checksum := cks\<rparr>])) \<and>
   (parse_loop \<lparr>pstate = STATE_START_OF_LINE, pchunk = None, pfile = [], pinput = inp\<rparr> = Inr cf \<and>
    pstate cf = STATE_ERROR \<longrightarrow> parse_ihex inp = Inr (- 1, pfile cf)) \<and>
   (parse_ihex inp = Inr (r, f) \<longrightarrow> list_all chunk_complete f) \<and>
   (parse_ihex inp = Inr (r, f) \<and> r \<noteq> 0 \<longrightarrow>
      (\<exists>w. main D (Some inp) w0 = Inr \<lparr>exit_code = 1, banner = None, final = w\<rparr> \<and>
           trace w = trace w0 \<and> dstate w = dstate w0))"
proof -
  have a: "parse_step c = Inr c' \<and> pstate c' = STATE_ERROR \<longrightarrow>
      pfile c' = pfile c \<and> (running c \<longrightarrow> parse_loop c = Inr c') \<and> parse_result c' = (- 1, pfile c)"
  proof
    assume h: "parse_step c = Inr c' \<and> pstate c' = STATE_ERROR"
    then have same: "pfile c' = pfile c" using parse_step_commit[of c c'] by auto
    have stop: "parse_loop c' = Inr c'" using h by (simp add: parse_loop_error)
    have "running c \<longrightarrow> parse_loop c = Inr c'"
      using h stop parse_loop_step[of c c'] by simp
    moreover have "parse_result c' = (- 1, pfile c)" using h same by (simp add: parse_result_def)
    ultimately show "pfile c' = pfile c \<and> (running c \<longrightarrow> parse_loop c = Inr c') \<and>
        parse_result c' = (- 1, pfile c)"
      using same by simp
  qed
  have b: "parse_step c = Inr c' \<and> pfile c' \<noteq> pfile c \<longrightarrow>
      pstate c = STATE_CHECKSUM \<and> pstate c' = STATE_START_OF_LINE \<and> pchunk c' = None \<and>
      (\<exists>ch cks. pchunk c = Some ch \<and> pfile c' = pfile c @ [ch\<lparr>checksum := cks\<rparr>])"
    using parse_step_commit[of c c'] by simp
  have e: "parse_loop \<lparr>pstate = STATE_START_OF_LINE, pchunk = None, pfile = [], pinput = inp\<rparr> = Inr cf \<and>
    pstate cf = STATE_ERROR \<longrightarrow> parse_ihex inp = Inr (- 1, pfile cf)"
    by (simp add: parse_ihex_def parse_result_def)
  have c: "parse_ihex inp = Inr (r, f) \<longrightarrow> list_all chunk_complete f"
    using parse_ihex_always_fails[of inp] by auto
  have d: "parse_ihex inp = Inr (r, f) \<and> r \<noteq> 0 \<longrightarrow>
      (\<exists>w. main D (Some inp) w0 = Inr \<lparr>exit_code = 1, banner = None, final = w\<rparr> \<and>
           trace w = trace w0 \<and> dstate w = dstate w0)"
  proof
    assume h: "parse_ihex inp = Inr (r, f) \<and> r \<noteq> 0"
    obtain fd w1 where o: "os_open w0 HexFile = (fd, w1)" by (metis surj_pair)
    then have w1: "trace w1 = trace w0" "dstate w1 = dstate w0"
      by (auto simp: os_open_def Let_def)
    have "main D (Some inp) w0 = Inr \<lparr>exit_code = 1, banner = None, final = os_close w1 fd\<rparr>"
      using h o by (simp add: main_def main_from_parse_def)
    moreover have "trace (os_close w1 fd) = trace w0" "dstate (os_close w1 fd) = dstate w0"
      using w1 by (simp_all add: os_close_def)
    ultimately show "\<exists>w. main D (Some inp) w0 = Inr \<lparr>exit_code = 1, banner = None, final = w\<rparr> \<and>
           trace w = trace w0 \<and> dstate w = dstate w0" by blast
  qed
  show ?thesis by (rule conjI[OF a conjI[OF b conjI[OF e conjI[OF c d]]]])
qed

theorem parse_error_commits_nothing_witness:
  "parse_step half_line = Inr half_line_error \<and>
   pfile half_line_error = [lo_chunk] \<and>
   parse_loop half_line = Inr half_line_error \<and>
   parse_result half_line_error = (- 1, [lo_chunk]) \<and>
   parse_ihex '':10F80000000102030405060708090A0B0C0D0E0F80:02F8100012G'' = Inr (- 1, [lo_chunk]) \<and>
   (\<exists>w. main scripted (Some '':10F80000000102030405060708090A0B0C0D0E0F80:02F8100012G'') (boot [])
          = Inr \<lparr>exit_code = 1, banner = None, final = w\<rparr> \<and> trace w = [] \<and> dstate w = [])"
proof -
  have s: "parse_step half_line = Inr half_line_error"
    by code_simp
  have e: "pstate half_line_error = STATE_ERROR" by (simp add: half_line_error_def)
  have p: "parse_ihex '':10F80000000102030405060708090A0B0C0D0E0F80:02F8100012G'' = Inr (- 1, [lo_chunk])"
    by code_simp
  have f: "pfile half_line = [lo_chunk]" by (simp add: half_line_def)
  have r: "running half_line" by (simp add: running_def half_line_def)
  from parse_error_commits_nothing[of half_line half_line_error
        "'':10F80000000102030405060708090A0B0C0D0E0F80:02F8100012G''" cf "- 1" "[lo_chunk]" scripted "boot []"]
    s e p f r
  show ?thesis by (simp add: boot_def)
qed

text \<open>
  \<^bold>\<open>C9\<close>, where the claim fails: the chunks of the lines before the failing one were linked
  into the caller's struct when their checksums were read, and after the loop only the
  chunk under construction is freed. On a stream whose second line meets the character
  \<^verbatim>\<open>G\<close>, \<^verbatim>\<open>parse_ihex\<close> returns \<open>-1\<close> and leaves the record of the first line in the list.
\<close>

theorem partial_list_left_on_error:
  "parse_ihex '':10F80000000102030405060708090A0B0C0D0E0F80:02F8100012G'' = Inr (- 1, [lo_chunk])"
  by code_simp

text \<open>
  \<^bold>\<open>C10\<close> (pairs). In a list that passes the validation, every record at an even position
  (the positions the page loop stops at: it starts at the first record and steps by
  \<^verbatim>\<open>chunk->next->next\<close>) has a successor, its address is a multiple of 32 and the
  successor's address is 16 more; and the page loop never reads through a null
  \<^verbatim>\<open>chunk->next\<close>, whatever the device does.
\<close>

theorem validated_pages_have_successor:
  assumes "validate_file cs"
  shows "(\<forall>k. 2 * k < length cs \<longrightarrow>
            2 * k + 1 < length cs \<and>
            unat (addr (cs ! (2 * k))) mod 32 = 0 \<and>
            unat (addr (cs ! (2 * k + 1))) = unat (addr (cs ! (2 * k))) + 16) \<and>
         program_pages D fd ret w cs \<noteq> Inl NullDeref"
proof -
  have ev: "even (length cs)" by (rule validate_file_even[OF assms])
  have "2 * k + 1 < length cs \<and>
        unat (addr (cs ! (2 * k))) mod 32 = 0 \<and>
        unat (addr (cs ! (2 * k + 1))) = unat (addr (cs ! (2 * k))) + 16"
    if k: "2 * k < length cs" for k
  proof -
    from ev k have k1: "2 * k + 1 < length cs" by presburger
    from assms k have a0: "unat (addr (cs ! (2 * k))) = 0xF800 + 16 * (2 * k)"
      unfolding validate_file_iff by blast
    from assms k1 have a1: "unat (addr (cs ! (2 * k + 1))) = 0xF800 + 16 * (2 * k + 1)"
      unfolding validate_file_iff by blast
    from a0 have "unat (addr (cs ! (2 * k))) mod 32 = 0" by presburger
    with k1 a0 a1 show ?thesis by simp
  qed
  with program_pages_null_free[OF ev] show ?thesis by blast
qed

theorem validated_pages_have_successor_witness:
  "unat (addr lo_chunk) mod 32 = 0 \<and> unat (addr hi_chunk) = unat (addr lo_chunk) + 16 \<and>
   program_pages scripted 3 0 (attached []) [lo_chunk, hi_chunk] \<noteq> Inl NullDeref"
proof -
  have v: "validate_file [lo_chunk, hi_chunk]"
    by (simp add: validate_file_def lo_chunk_def hi_chunk_def)
  from validated_pages_have_successor[OF v, of scripted 3 0 "attached []"]
  have "(\<forall>k. 2 * k < length [lo_chunk, hi_chunk] \<longrightarrow>
            2 * k + 1 < length [lo_chunk, hi_chunk] \<and>
            unat (addr ([lo_chunk, hi_chunk] ! (2 * k))) mod 32 = 0 \<and>
            unat (addr ([lo_chunk, hi_chunk] ! (2 * k + 1))) = unat (addr ([lo_chunk, hi_chunk] ! (2 * k))) + 16)"
    and nf: "program_pages scripted 3 0 (attached []) [lo_chunk, hi_chunk] \<noteq> Inl NullDeref"
    by blast+
  from this(1)[rule_format, of 0] nf show ?thesis by simp
qed

end
